theory Spec2Isabelle
  imports Main
begin

section \<open>Text\<close>

text \<open>
  A Python \<open>str\<close> is modelled as a \<open>string\<close>: a list of characters, each one a code
  point in the range 0..255 (Latin-1). On that range the character classes of the
  interpreter are finite and written out below; code points beyond it are outside the
  model. Non-ASCII characters are written by their code (\<open>CHR 0xE4\<close> is a-umlaut,
  \<open>CHR 0xB2\<close> is superscript two).
\<close>

definition startswith :: "string \<Rightarrow> string \<Rightarrow> bool" where
  \<comment> \<open>\<open>s.startswith(p)\<close>\<close>
  "startswith s p = (take (length p) s = p)"

fun contains :: "string \<Rightarrow> string \<Rightarrow> bool" where
  \<comment> \<open>\<open>p in s\<close>: \<open>p\<close> occurs in \<open>s\<close> as a contiguous substring\<close>
  "contains p [] = (p = [])"
| "contains p (c # cs) = (startswith (c # cs) p \<or> contains p cs)"

definition is_digit :: "char \<Rightarrow> bool" where
  \<comment> \<open>the class \<open>\d\<close>: the decimal digits\<close>
  "is_digit c = (c \<in> set ''0123456789'')"

definition is_space :: "char \<Rightarrow> bool" where
  \<comment> \<open>the class \<open>\s\<close>, also what \<open>str.strip()\<close> removes: tab, line feed, vertical tab,
     form feed, carriage return, the four separators 0x1C..0x1F, space, next line and
     no-break space\<close>
  "is_space c =
     (c \<in> set [CHR 0x09, CHR 0x0A, CHR 0x0B, CHR 0x0C, CHR 0x0D, CHR 0x1C, CHR 0x1D,
                CHR 0x1E, CHR 0x1F, CHR 0x20, CHR 0x85, CHR 0xA0])"

definition upper_chars :: string where
  "upper_chars = ''ABCDEFGHIJKLMNOPQRSTUVWXYZ'' @
     [CHR 0xC0, CHR 0xC1, CHR 0xC2, CHR 0xC3, CHR 0xC4, CHR 0xC5, CHR 0xC6, CHR 0xC7,
      CHR 0xC8, CHR 0xC9, CHR 0xCA, CHR 0xCB, CHR 0xCC, CHR 0xCD, CHR 0xCE, CHR 0xCF,
      CHR 0xD0, CHR 0xD1, CHR 0xD2, CHR 0xD3, CHR 0xD4, CHR 0xD5, CHR 0xD6,
      CHR 0xD8, CHR 0xD9, CHR 0xDA, CHR 0xDB, CHR 0xDC, CHR 0xDD, CHR 0xDE]"

definition lower_chars :: string where
  "lower_chars = ''abcdefghijklmnopqrstuvwxyz'' @
     [CHR 0xE0, CHR 0xE1, CHR 0xE2, CHR 0xE3, CHR 0xE4, CHR 0xE5, CHR 0xE6, CHR 0xE7,
      CHR 0xE8, CHR 0xE9, CHR 0xEA, CHR 0xEB, CHR 0xEC, CHR 0xED, CHR 0xEE, CHR 0xEF,
      CHR 0xF0, CHR 0xF1, CHR 0xF2, CHR 0xF3, CHR 0xF4, CHR 0xF5, CHR 0xF6,
      CHR 0xF8, CHR 0xF9, CHR 0xFA, CHR 0xFB, CHR 0xFC, CHR 0xFD, CHR 0xFE]"

definition lower_char :: "char \<Rightarrow> char" where
  \<comment> \<open>each upper-case letter goes to the lower-case letter at the same place of the table\<close>
  "lower_char c = (case map_of (zip upper_chars lower_chars) c of Some l \<Rightarrow> l | None \<Rightarrow> c)"

definition lower :: "string \<Rightarrow> string" where
  \<comment> \<open>\<open>s.lower()\<close>\<close>
  "lower s = map lower_char s"

definition strip :: "string \<Rightarrow> string" where
  \<comment> \<open>\<open>s.strip()\<close>: white space removed at both ends\<close>
  "strip s = rev (dropWhile is_space (rev (dropWhile is_space s)))"

definition digit_value :: "char \<Rightarrow> int" where
  "digit_value c = int (of_char c) - 48"

definition py_int :: "string \<Rightarrow> int option" where
  \<comment> \<open>\<open>int(s)\<close> for a string of decimal digits, the only strings it is called on here:
     \<open>None\<close> is \<open>ValueError\<close>, raised for the empty string. The interpreter's optional
     limit on the number of digits is not modelled.\<close>
  "py_int s =
     (if s \<noteq> [] \<and> list_all is_digit s
      then Some (fold (\<lambda>c n. 10 * n + digit_value c) s 0) else None)"

fun str_nat :: "nat \<Rightarrow> string" where
  \<comment> \<open>\<open>str(n)\<close>, as an f-string renders a non-negative integer\<close>
  "str_nat n =
     (if n < 10 then [''0123456789'' ! n]
      else str_nat (n div 10) @ [''0123456789'' ! (n mod 10)])"

declare str_nat.simps [simp del]

section \<open>Regular expressions\<close>

text \<open>
  The fragment of \<open>re\<close> that the patterns of the scraper use, with the backtracking
  order of the library: an alternation tries its left branch first and a repetition is
  greedy. \<open>rmatch r s\<close> lists, in that order, every way \<open>r\<close> matches a prefix of \<open>s\<close>, each as
  the input left over and the texts of the capturing groups; the head of the list is
  the match that the library reports at this position.
\<close>

datatype regex =
    Lit string
  | Cls "char \<Rightarrow> bool" nat "nat option"
  | Alt regex regex
  | Seq regex regex
  | Grp regex

fun rmatch :: "regex \<Rightarrow> string \<Rightarrow> (string \<times> string list) list" where
  "rmatch (Lit p) s = (if startswith s p then [(drop (length p) s, [])] else [])"
| "rmatch (Cls P lo hi) s =
     (let n = length (takeWhile P s);
          m = (case hi of None \<Rightarrow> n | Some h \<Rightarrow> min h n)
      in map (\<lambda>k. (drop k s, [])) (rev [lo..<Suc m]))"
| "rmatch (Alt r1 r2) s = rmatch r1 s @ rmatch r2 s"
| "rmatch (Seq r1 r2) s =
     concat (map (\<lambda>(s1, g1). map (\<lambda>(s2, g2). (s2, g1 @ g2)) (rmatch r2 s1)) (rmatch r1 s))"
| "rmatch (Grp r) s = map (\<lambda>(s1, g). (s1, take (length s - length s1) s # g)) (rmatch r s)"

definition match_at :: "regex \<Rightarrow> string \<Rightarrow> (string \<times> string list) option" where
  \<comment> \<open>the match starting at the head of \<open>s\<close>: its whole text and its groups\<close>
  "match_at r s =
     (case rmatch r s of [] \<Rightarrow> None
      | (rest, g) # _ \<Rightarrow> Some (take (length s - length rest) s, g))"

fun search :: "regex \<Rightarrow> string \<Rightarrow> (string \<times> string list) option" where
  \<comment> \<open>\<open>re.search\<close>: the match at the leftmost position that has one\<close>
  "search r [] = match_at r []"
| "search r (c # cs) =
     (case match_at r (c # cs) of Some m \<Rightarrow> Some m | None \<Rightarrow> search r cs)"

fun finditer :: "regex \<Rightarrow> nat \<Rightarrow> string \<Rightarrow> (string \<times> string list) list" where
  \<comment> \<open>the non-overlapping matches from left to right; \<open>k\<close> counts the characters that the
     previous match still covers\<close>
  "finditer r k [] =
     (if k = 0 then (case match_at r [] of None \<Rightarrow> [] | Some m \<Rightarrow> [m]) else [])"
| "finditer r k (c # cs) =
     (if 0 < k then finditer r (k - 1) cs
      else case match_at r (c # cs) of
             None \<Rightarrow> finditer r 0 cs
           | Some m \<Rightarrow> m # finditer r (length (fst m) - 1) cs)"

definition findall :: "regex \<Rightarrow> string \<Rightarrow> string list" where
  \<comment> \<open>\<open>re.findall\<close>: for a pattern without a group the whole text of each match, for a
     pattern with a group the text of that group. No pattern here has two groups.\<close>
  "findall r s = map (\<lambda>(m, g). case g of [] \<Rightarrow> m | x # _ \<Rightarrow> x) (finditer r 0 s)"

section \<open>The parsed document\<close>

text \<open>
  The markup parser is an external collaborator. Of a parsed document the scraper uses
  the elements that a CSS selector finds, in document order, and the visible text; of an
  element it uses the text and the attributes.
\<close>

record tag =
  get_text :: string
  attrs :: "(string \<times> string) list"

record soup =
  select :: "string \<Rightarrow> tag list"
  soup_text :: string

definition select_one :: "soup \<Rightarrow> string \<Rightarrow> tag option" where
  \<comment> \<open>\<open>soup.select_one(selector)\<close>: the first element found, or \<open>None\<close>\<close>
  "select_one sp sel = (case select sp sel of [] \<Rightarrow> None | t # _ \<Rightarrow> Some t)"

definition tag_get :: "tag \<Rightarrow> string \<Rightarrow> string \<Rightarrow> string" where
  \<comment> \<open>\<open>link.get(key, default)\<close>\<close>
  "tag_get t k d = (case map_of (attrs t) k of None \<Rightarrow> d | Some v \<Rightarrow> v)"

section \<open>Data\<close>

text \<open>The dictionary built in \<open>extract_listing_details\<close>, one field per key.\<close>

record listing =
  title :: string
  price :: int
  area :: int
  location :: string
  url :: string
  description :: string
  phoneNumber :: "string option"
  category :: string
  region :: string
  eur_per_m2 :: int
  scraped_at :: string

text \<open>
  The mutable attributes of \<open>ContinuousWillhabenScraper\<close> that the scan reads and writes.
\<close>

record scraper =
  is_running :: bool
  current_cycle :: nat
  found_listings :: "listing list"

section \<open>Control surface\<close>

definition py_slice_from :: "'a list \<Rightarrow> int \<Rightarrow> 'a list" where
  \<comment> \<open>\<open>xs[i:]\<close>: a negative start counts from the end, and both are clipped to the list\<close>
  "py_slice_from xs i =
     (let n = int (length xs);
          j = (if i < 0 then max 0 (n + i) else min i n)
      in drop (nat j) xs)"

definition get_recent_listings :: "'a scraper_scheme \<Rightarrow> int \<Rightarrow> listing list" where
  \<comment> \<open>\<open>self.found_listings[-limit:] if self.found_listings else []\<close>\<close>
  "get_recent_listings s limit =
     (if found_listings s \<noteq> [] then py_slice_from (found_listings s) (- limit) else [])"

definition stop_scraping :: "'a scraper_scheme \<Rightarrow> 'a scraper_scheme" where
  "stop_scraping s = s\<lparr>is_running := False\<rparr>"

record status =
  status_is_running :: bool
  status_current_cycle :: nat
  status_total_found :: nat


definition sample_listing :: listing where
  "sample_listing =
     \<lparr>title = ''Wohnung in Wien'', price = 300000, area = 75,
      location = ''Unknown Location'',
      url = ''https://www.willhaben.at/iad/immobilien/d/AAA'', description = [],
      phoneNumber = Some ''+43'', category = ''eigentumswohnung'', region = ''wien'',
      eur_per_m2 = 4000, scraped_at = ''2024-01-01T00:00:00''\<rparr>"

section \<open>Errors and numbers\<close>

datatype py_error = ValueError | IndexError | ZeroDivisionError | OverflowError

text \<open>
  A Python \<open>float\<close> is a binary64 number; \<open>Float m e\<close> stands for the value \<open>m * 2 ^ e\<close>.
  The quotient \<open>p / a\<close> of two integers is the binary64 number nearest to the exact
  quotient, ties going to the even mantissa: 53 bits of mantissa, the smallest exponent
  of the last place -1074, and \<open>OverflowError\<close> from \<open>2 ^ 1024\<close> on.
\<close>

datatype pyfloat = Float int int

function bit_length :: "int \<Rightarrow> nat" where
  \<comment> \<open>the number of binary digits of a positive integer\<close>
  "bit_length n = (if n \<le> 0 then 0 else Suc (bit_length (n div 2)))"
  by pat_completeness auto
termination
  by (relation "measure nat") auto

declare bit_length.simps [simp del]

definition round_half_even_div :: "int \<Rightarrow> int \<Rightarrow> int" where
  \<comment> \<open>the integer nearest to \<open>n / d\<close> for \<open>0 \<le> n\<close> and \<open>0 < d\<close>, a tie going to the even one\<close>
  "round_half_even_div n d =
     (let q = n div d; r = n mod d
      in if 2 * r < d then q
         else if d < 2 * r then q + 1
         else if even q then q else q + 1)"

definition truediv :: "int \<Rightarrow> int \<Rightarrow> py_error + pyfloat" where
  \<comment> \<open>\<open>p / a\<close> on integers\<close>
  "truediv p a =
     (if a = 0 then Inl ZeroDivisionError
      else if p = 0 then Inr (Float 0 0)
      else
        let P = \<bar>p\<bar>; A = \<bar>a\<bar>;
            sg = (if (p < 0) = (a < 0) then 1 else - 1);
            d = int (bit_length P) - int (bit_length A);
            e = (if P * 2 ^ nat (- d) < A * 2 ^ nat d then d - 1 else d);
            u = max (e - 52) (- 1074);
            m = round_half_even_div (P * 2 ^ nat (- u)) (A * 2 ^ nat u)
        in if 2 ^ 1024 \<le> m * 2 ^ nat u then Inl OverflowError
           else Inr (Float (sg * m) u))"

fun py_round :: "pyfloat \<Rightarrow> int" where
  \<comment> \<open>\<open>round(x)\<close> with one argument: the nearest integer, a tie going to the even one\<close>
  "py_round (Float m e) =
     (if 0 \<le> e then m * 2 ^ nat e
      else sgn m * round_half_even_div \<bar>m\<bar> (2 ^ nat (- e)))"

definition compute_eur_per_m2 :: "int \<Rightarrow> int \<Rightarrow> py_error + int" where
  \<comment> \<open>\<open>round(price / area) if area > 0 else 0\<close>\<close>
  "compute_eur_per_m2 p a =
     (if 0 < a
      then (case truediv p a of Inl err \<Rightarrow> Inl err | Inr q \<Rightarrow> Inr (py_round q))
      else Inr 0)"

section \<open>Field extraction\<close>

definition title_selectors :: "string list" where
  \<open>title_selectors = [''[data-testid="ad-detail-ad-title"] h1'', ''.AdDetailTitle'', ''h1'']\<close>

definition price_selectors :: "string list" where
  \<open>price_selectors =
     [''[data-testid="ad-detail-ad-price"] span'', ''.AdDetailPrice'', ''.price-value'']\<close>

definition area_selectors :: "string list" where
  \<open>area_selectors = [''[data-testid="ad-detail-ad-properties"]'', ''.AdDetailProperties'']\<close>

definition location_selectors :: "string list" where
  \<open>location_selectors = [''[data-testid="ad-detail-ad-location"]'', ''.AdDetailLocation'']\<close>

definition description_selectors :: "string list" where
  \<open>description_selectors =
     [''[data-testid="ad-detail-ad-description"] p'', ''.AdDescription-description'']\<close>

fun first_text :: "soup \<Rightarrow> string list \<Rightarrow> string \<Rightarrow> string" where
  \<comment> \<open>the loop shared by \<open>extract_title\<close>, \<open>extract_location\<close> and \<open>extract_description\<close>:
     the stripped text of the element of the first selector that finds one, else the
     default\<close>
  "first_text sp [] d = d"
| "first_text sp (sel # sels) d =
     (case select_one sp sel of
        None \<Rightarrow> first_text sp sels d
      | Some element \<Rightarrow> strip (get_text element))"

definition extract_title :: "soup \<Rightarrow> string" where
  "extract_title sp = first_text sp title_selectors ''Unknown Title''"

definition extract_location :: "soup \<Rightarrow> string" where
  "extract_location sp = first_text sp location_selectors ''Unknown Location''"

definition extract_description :: "soup \<Rightarrow> string" where
  "extract_description sp = first_text sp description_selectors []"

fun extract_price_loop :: "soup \<Rightarrow> string list \<Rightarrow> int" where
  \<comment> \<open>\<open>re.sub(r'[^\d]', '', text)\<close> keeps the digits; \<open>ValueError\<close> goes on to the next
     selector\<close>
  "extract_price_loop sp [] = 0"
| "extract_price_loop sp (sel # sels) =
     (case select_one sp sel of
        None \<Rightarrow> extract_price_loop sp sels
      | Some element \<Rightarrow>
          (let price_text = filter is_digit (get_text element)
           in case py_int price_text of
                Some n \<Rightarrow> n
              | None \<Rightarrow> extract_price_loop sp sels))"

definition extract_price :: "soup \<Rightarrow> int" where
  "extract_price sp = extract_price_loop sp price_selectors"

definition area_pattern :: regex where
  \<comment> \<open>\<open>(\d+)\s*m\<close> and superscript two, ignoring case\<close>
  "area_pattern =
     Seq (Grp (Cls is_digit 1 None))
       (Seq (Cls is_space 0 None)
         (Seq (Cls (\<lambda>c. c \<in> set ''mM'') 1 (Some 1)) (Lit [CHR 0xB2])))"

fun extract_area_loop :: "soup \<Rightarrow> string list \<Rightarrow> py_error + int" where
  \<comment> \<open>\<open>int(match.group(1))\<close> is not guarded in the source: its failures are results here\<close>
  "extract_area_loop sp [] = Inr 0"
| "extract_area_loop sp (sel # sels) =
     (case select_one sp sel of
        None \<Rightarrow> extract_area_loop sp sels
      | Some element \<Rightarrow>
          (case search area_pattern (get_text element) of
             None \<Rightarrow> extract_area_loop sp sels
           | Some (m, g) \<Rightarrow>
               (case g of
                  [] \<Rightarrow> Inl IndexError
                | x # _ \<Rightarrow> (case py_int x of None \<Rightarrow> Inl ValueError | Some n \<Rightarrow> Inr n))))"

definition extract_area :: "soup \<Rightarrow> py_error + int" where
  "extract_area sp = extract_area_loop sp area_selectors"

definition is_space_or_hyphen :: "char \<Rightarrow> bool" where
  \<comment> \<open>the class \<open>[\s\-]\<close>\<close>
  "is_space_or_hyphen c = (is_space c \<or> c = CHR ''-'')"

definition phone_tail :: regex where
  \<comment> \<open>\<open>[1-9]\d{1,4}[\s\-]?\d{3,8}\<close>, the end of both phone patterns\<close>
  "phone_tail =
     Seq (Cls (\<lambda>c. c \<in> set ''123456789'') 1 (Some 1))
       (Seq (Cls is_digit 1 (Some 4))
         (Seq (Cls is_space_or_hyphen 0 (Some 1)) (Cls is_digit 3 (Some 8))))"

definition phone_patterns :: "regex list" where
  \<comment> \<open>\<open>(\+43|0043)[\s\-]?[1-9]\d{1,4}[\s\-]?\d{3,8}\<close> and \<open>0[1-9]\d{1,4}[\s\-]?\d{3,8}\<close>\<close>
  "phone_patterns =
     [Seq (Grp (Alt (Lit ''+43'') (Lit ''0043'')))
        (Seq (Cls is_space_or_hyphen 0 (Some 1)) phone_tail),
      Seq (Lit ''0'') phone_tail]"

fun extract_phone_loop :: "regex list \<Rightarrow> string \<Rightarrow> string option" where
  \<comment> \<open>\<open>re.sub(r'[\s\-]', '', matches[0])\<close> drops white space and hyphens\<close>
  "extract_phone_loop [] html = None"
| "extract_phone_loop (pattern # patterns) html =
     (case findall pattern html of
        [] \<Rightarrow> extract_phone_loop patterns html
      | m # _ \<Rightarrow> Some (filter (\<lambda>c. \<not> is_space_or_hyphen c) m))"

definition extract_phone_number :: "string \<Rightarrow> string option" where
  "extract_phone_number html = extract_phone_loop phone_patterns html"

section \<open>Listing discovery\<close>

definition link_selectors :: "string list" where
  \<open>link_selectors =
     [''a[href*="/iad/immobilien/d/"]'', ''a[data-testid*="result-item"]'', ''.result-item a'']\<close>

definition listing_fragment :: string where
  "listing_fragment = ''/iad/immobilien/d/''"

definition origin :: string where
  "origin = ''https://www.willhaben.at''"

definition set_add :: "string \<Rightarrow> string list \<Rightarrow> string list" where
  \<comment> \<open>\<open>listing_urls.add(href)\<close>: the set is kept as the list of its elements, each once\<close>
  "set_add x xs = (if x \<in> set xs then xs else xs @ [x])"

fun add_links :: "tag list \<Rightarrow> string list \<Rightarrow> string list" where
  "add_links [] urls = urls"
| "add_links (link # links) urls =
     (let href = tag_get link ''href'' []
      in if contains listing_fragment href
         then add_links links
                (set_add (if startswith href ''/'' then origin @ href else href) urls)
         else add_links links urls)"

fun add_selectors :: "soup \<Rightarrow> string list \<Rightarrow> string list \<Rightarrow> string list" where
  "add_selectors sp [] urls = urls"
| "add_selectors sp (selector # selectors) urls =
     add_selectors sp selectors (add_links (select sp selector) urls)"

definition listing_urls :: "soup \<Rightarrow> string list" where
  \<comment> \<open>the set \<open>listing_urls\<close> of \<open>parse_listings_page\<close> when its two loops are done\<close>
  "listing_urls sp = add_selectors sp link_selectors []"

section \<open>The world of a scan\<close>

text \<open>
  The scan is one coroutine. It gives up control at each \<open>await\<close>: a request, the read
  of a response body, a pacing sleep. These suspensions are counted by \<open>tick\<close>, and
  everything the scan does not decide itself is read from the world at the current
  tick: the answer of the transport to a request, the document that the parser makes of
  a body, whether an outside controller calls \<open>stop_scraping\<close> during the suspension,
  the order in which a set of URLs is iterated, the permutation that \<open>random.shuffle\<close>
  picks, the numbers that \<open>random.randint\<close> draws, the clock. An order is given as a
  rank by which the elements are sorted: every permutation of distinct elements is
  the order of some rank. The progress callback, the sleeps and the random source are
  taken not to raise, so the handlers of lines 86 to 88 and 120 to 121 have no branch
  here. Request headers, with their random user agent, do not reach any result and are
  left out.
\<close>

datatype response = TransportError | Http nat "string option"
  \<comment> \<open>the request raised, or a status with the body that \<open>response.text()\<close> gives
     (\<open>None\<close> when reading the body raises)\<close>

record env =
  http_get :: "nat \<Rightarrow> string \<Rightarrow> response"
  bs4 :: "string \<Rightarrow> soup"
  stop_called :: "nat \<Rightarrow> bool"
  set_rank :: "nat \<Rightarrow> string \<Rightarrow> nat"
  shuffle_rank :: "nat \<Rightarrow> string \<Rightarrow> nat"
  randint :: "nat \<Rightarrow> nat"
  now :: "nat \<Rightarrow> string"

datatype message =
    AlreadyRunning
  | Started
  | CycleStart nat
  | CategoryPause nat
  | CycleComplete nat
  | ScanStart string
  | PageCount nat nat string
  | Found string int
  | RateLimit
  | HttpError nat string
  | RequestError

datatype event = Progress message | Sleep nat | GetPage string | GetDetail string
  \<comment> \<open>a call of the progress callback, a pacing sleep of so many seconds, the request
     of a search-result page (line 136), the request of a detail page (line 191)\<close>

record run = scraper +
  tick :: nat
  trace :: "(nat \<times> event) list"

definition emit :: "event \<Rightarrow> run \<Rightarrow> run" where
  \<comment> \<open>the trace keeps each effect with the tick at which it happened\<close>
  "emit e s = s\<lparr>trace := trace s @ [(tick s, e)]\<rparr>"

definition suspend :: "env \<Rightarrow> run \<Rightarrow> run" where
  "suspend w s =
     (let s' = (if stop_called w (tick s) then stop_scraping s else s)
      in s'\<lparr>tick := Suc (tick s)\<rparr>)"

definition sleep :: "env \<Rightarrow> nat \<Rightarrow> run \<Rightarrow> run" where
  \<comment> \<open>\<open>await asyncio.sleep(d)\<close>\<close>
  "sleep w d s = suspend w (emit (Sleep d) s)"

definition rand_between :: "env \<Rightarrow> run \<Rightarrow> nat \<Rightarrow> nat \<Rightarrow> nat" where
  \<comment> \<open>\<open>random.randint(lo, hi)\<close>, both ends included\<close>
  "rand_between w s lo hi = lo + randint w (tick s) mod (hi - lo + 1)"

section \<open>Detail pages\<close>

definition private_keywords :: "string list" where
  "private_keywords =
     [''privatverkauf'', ''privat verkauf'', ''von privat'',
      ''privater verk'' @ [CHR 0xE4] @ ''ufer'', ''doppelmarkler'', ''ohne makler'']"

definition is_private :: "string \<Rightarrow> bool" where
  \<comment> \<open>\<open>any(keyword in text_content for keyword in private_keywords)\<close>\<close>
  "is_private text_content =
     list_ex (\<lambda>keyword. contains keyword text_content) private_keywords"

definition make_listing ::
  "string \<Rightarrow> soup \<Rightarrow> string \<Rightarrow> string \<Rightarrow> string \<Rightarrow> py_error + listing option" where
  \<comment> \<open>lines 198 to 232: what \<open>extract_listing_details\<close> does with the body \<open>html\<close> and its
     parsed document; \<open>Inl\<close> is an exception on the way\<close>
  "make_listing html sp u category_name stamp =
     (let title' = extract_title sp;
          price' = extract_price sp
      in case extract_area sp of
           Inl err \<Rightarrow> Inl err
         | Inr area' \<Rightarrow>
             (let location' = extract_location sp;
                  description' = extract_description sp;
                  phone = extract_phone_number html;
                  text_content = lower (soup_text sp)
              in if is_private text_content \<and> 0 < price'
                 then
                   (let region' = (if contains ''wien'' category_name
                                   then ''wien'' else ''niederoesterreich'');
                        listing_category = (if contains ''eigentumswohnung'' category_name
                                            then ''eigentumswohnung'' else ''grundstueck'')
                    in case compute_eur_per_m2 price' area' of
                         Inl err \<Rightarrow> Inl err
                       | Inr eur \<Rightarrow>
                           Inr (Some \<lparr>title = title', price = price', area = area',
                                      location = location', url = u,
                                      description = description', phoneNumber = phone,
                                      category = listing_category, region = region',
                                      eur_per_m2 = eur, scraped_at = stamp\<rparr>))
                 else Inr None))"

definition extract_listing_details ::
  "env \<Rightarrow> string \<Rightarrow> string \<Rightarrow> run \<Rightarrow> listing option \<times> run" where
  \<comment> \<open>any exception inside is caught and gives \<open>None\<close>\<close>
  "extract_listing_details w u category_name s =
     (let r = http_get w (tick s) u;
          s1 = suspend w (emit (GetDetail u) s)
      in case r of
           TransportError \<Rightarrow> (None, s1)
         | Http status body \<Rightarrow>
             if status \<noteq> 200 then (None, s1)
             else
               (let s2 = suspend w s1
                in case body of
                     None \<Rightarrow> (None, s2)
                   | Some html \<Rightarrow>
                       (case make_listing html (bs4 w html) u category_name (now w (tick s2)) of
                          Inl err \<Rightarrow> (None, s2)
                        | Inr found \<Rightarrow> (found, s2))))"

section \<open>Search-result pages\<close>

fun extract_all :: "env \<Rightarrow> string \<Rightarrow> string list \<Rightarrow> run \<Rightarrow> listing list \<times> run" where
  \<comment> \<open>the loop of lines 175 to 178\<close>
  "extract_all w category_name [] s = ([], s)"
| "extract_all w category_name (u # us) s =
     (case extract_listing_details w u category_name s of
        (found, s1) \<Rightarrow>
          (case extract_all w category_name us s1 of
             (listings, s2) \<Rightarrow>
               ((case found of None \<Rightarrow> listings | Some l \<Rightarrow> l # listings), s2)))"

definition parse_listings_page ::
  "env \<Rightarrow> string \<Rightarrow> string \<Rightarrow> run \<Rightarrow> listing list \<times> run" where
  "parse_listings_page w html category_name s =
     extract_all w category_name
       (sort_key (set_rank w (tick s)) (listing_urls (bs4 w html))) s"

definition get_page_listings ::
  "env \<Rightarrow> string \<Rightarrow> string \<Rightarrow> run \<Rightarrow> listing list \<times> run" where
  "get_page_listings w u category_name s =
     (let r = http_get w (tick s) u;
          s1 = suspend w (emit (GetPage u) s)
      in case r of
           TransportError \<Rightarrow> ([], emit (Progress RequestError) s1)
         | Http status body \<Rightarrow>
             if status = 200 then
               (let s2 = suspend w s1
                in case body of
                     None \<Rightarrow> ([], emit (Progress RequestError) s2)
                   | Some html \<Rightarrow> parse_listings_page w html category_name s2)
             else if status = 429 then
               ([], sleep w 60 (emit (Progress RateLimit) s1))
             else ([], emit (Progress (HttpError status u)) s1))"

section \<open>The scan\<close>

fun scan_listings :: "env \<Rightarrow> listing list \<Rightarrow> run \<Rightarrow> run" where
  \<comment> \<open>the loop of lines 106 to 115; \<open>break\<close> leaves it with the state as it is\<close>
  "scan_listings w [] s = s"
| "scan_listings w (l # ls) s =
     (if \<not> is_running s then s
      else
        (let s1 = s\<lparr>found_listings := found_listings s @ [l]\<rparr>;
             s2 = emit (Progress (Found (take 50 (title l)) (price l))) s1;
             s3 = sleep w (rand_between w s2 5 12) s2
         in scan_listings w ls s3))"

fun scan_pages :: "env \<Rightarrow> string \<Rightarrow> string \<Rightarrow> nat list \<Rightarrow> run \<Rightarrow> run" where
  \<comment> \<open>the loop of lines 96 to 118 over the page numbers\<close>
  "scan_pages w category_name base_url [] s = s"
| "scan_pages w category_name base_url (page # pages) s =
     (if \<not> is_running s then s
      else
        (case get_page_listings w (base_url @ ''&page='' @ str_nat page) category_name s of
           (listings, s1) \<Rightarrow>
             (let s2 = emit (Progress (PageCount page (length listings) category_name)) s1;
                  s3 = scan_listings w listings s2;
                  s4 = sleep w (rand_between w s3 15 30) s3
              in scan_pages w category_name base_url pages s4)))"

definition scan_category :: "env \<Rightarrow> string \<Rightarrow> string \<Rightarrow> run \<Rightarrow> run" where
  "scan_category w category_name base_url s =
     scan_pages w category_name base_url [1, 2, 3]
       (emit (Progress (ScanStart category_name)) s)"

definition categories :: "(string \<times> string) list" where
  "categories =
     [(''eigentumswohnung-wien'',
       ''https://www.willhaben.at/iad/immobilien/eigentumswohnung/eigentumswohnung-angebote?areaId=900&areaId=903&rows=25&SELLER_TYPE=PRIVATE&keyword=Privatverkauf''),
      (''eigentumswohnung-niederoesterreich'',
       ''https://www.willhaben.at/iad/immobilien/eigentumswohnung/eigentumswohnung-angebote?areaId=904&rows=25&SELLER_TYPE=PRIVATE&keyword=Privatverkauf''),
      (''grundstueck-wien'',
       ''https://www.willhaben.at/iad/immobilien/grundstueck/grundstueck-angebote?areaId=900&areaId=903&rows=25&SELLER_TYPE=PRIVATE&keyword=Privatverkauf''),
      (''grundstueck-niederoesterreich'',
       ''https://www.willhaben.at/iad/immobilien/grundstueck/grundstueck-angebote?areaId=904&rows=25&SELLER_TYPE=PRIVATE&keyword=Privatverkauf'')]"

fun scan_categories :: "env \<Rightarrow> (string \<times> string) list \<Rightarrow> run \<Rightarrow> run" where
  \<comment> \<open>the loop of lines 70 to 79\<close>
  "scan_categories w [] s = s"
| "scan_categories w ((category_name, base_url) # rest) s =
     (if \<not> is_running s then s
      else
        (let s1 = scan_category w category_name base_url s;
             category_delay = rand_between w s1 180 480;
             s2 = emit (Progress (CategoryPause (category_delay div 60))) s1;
             s3 = sleep w category_delay s2
         in scan_categories w rest s3))"

definition cycle :: "env \<Rightarrow> run \<Rightarrow> run" where
  \<comment> \<open>one round of the \<open>while\<close> loop, lines 61 to 84\<close>
  "cycle w s =
     (let s1 = s\<lparr>current_cycle := current_cycle s + 1\<rparr>;
          s2 = emit (Progress (CycleStart (current_cycle s1))) s1;
          categories_list = sort_key (\<lambda>c. shuffle_rank w (tick s2) (fst c)) categories;
          s3 = scan_categories w categories_list s2;
          cycle_delay = rand_between w s3 1200 2700;
          s4 = emit (Progress (CycleComplete (cycle_delay div 60))) s3
      in sleep w cycle_delay s4)"

partial_function (option) continuous_scan_loop :: "env \<Rightarrow> run \<Rightarrow> run option" where
  \<comment> \<open>\<open>while self.is_running\<close>: \<open>None\<close> is a loop that never ends\<close>
  "continuous_scan_loop w s =
     (if is_running s then continuous_scan_loop w (cycle w s) else Some s)"

fun run_cycles :: "nat \<Rightarrow> env \<Rightarrow> run \<Rightarrow> run" where
  \<comment> \<open>the state of the loop when it has ended or gone through \<open>n\<close> rounds\<close>
  "run_cycles 0 w s = s"
| "run_cycles (Suc n) w s = (if is_running s then run_cycles n w (cycle w s) else s)"

definition start_247_scraping :: "env \<Rightarrow> run \<Rightarrow> run option" where
  \<comment> \<open>the session is made and closed by the transport\<close>
  "start_247_scraping w s =
     (if is_running s then Some (emit (Progress AlreadyRunning) s)
      else continuous_scan_loop w (emit (Progress Started) (s\<lparr>is_running := True\<rparr>)))"

section \<open>Notions of the specification\<close>

definition price_of_selector :: "soup \<Rightarrow> string \<Rightarrow> int option" where
  \<comment> \<open>what one selector yields for the price: the text of its first element with every
     non-digit stripped, parsed as an integer; \<open>None\<close> when no element matches or the
     parse fails\<close>
  "price_of_selector sp sel =
     (case select_one sp sel of
        None \<Rightarrow> None
      | Some element \<Rightarrow> py_int (filter is_digit (get_text element)))"

definition absolute_url :: "string \<Rightarrow> bool" where
  \<comment> \<open>an absolute URL starts with a scheme and a colon; a scheme is a letter followed by
     letters, digits, plus, minus and dot\<close>
  "absolute_url u =
     (let scheme = takeWhile (\<lambda>c. c \<noteq> CHR '':'') u
      in scheme \<noteq> [] \<and> length scheme < length u
         \<and> hd scheme \<in> set ''abcdefghijklmnopqrstuvwxyzABCDEFGHIJKLMNOPQRSTUVWXYZ''
         \<and> list_all (\<lambda>c. c \<in> set ''abcdefghijklmnopqrstuvwxyzABCDEFGHIJKLMNOPQRSTUVWXYZ0123456789+-.'')
              scheme)"

definition found_hrefs :: "soup \<Rightarrow> string list" where
  \<comment> \<open>the \<open>href\<close> of every anchor that some selector strategy finds\<close>
  "found_hrefs sp =
     concat (map (\<lambda>sel. map (\<lambda>t. tag_get t ''href'' []) (select sp sel)) link_selectors)"

definition canonical :: "string \<Rightarrow> string" where
  \<comment> \<open>the URL kept for an \<open>href\<close>: the origin is put before a leading slash\<close>
  "canonical href = (if startswith href ''/'' then origin @ href else href)"

definition accepted :: "env \<Rightarrow> listing \<Rightarrow> bool" where
  \<comment> \<open>the acceptance invariant: a positive price, and a private-seller keyword in the
     lower-cased visible text of the detail page, the page that the transport answered
     with status 200 to a request of the listing's URL\<close>
  "accepted w l =
     (0 < price l \<and>
      (\<exists>t html. http_get w t (url l) = Http 200 (Some html)
                 \<and> is_private (lower (soup_text (bs4 w html)))))"

definition tagged :: "listing \<Rightarrow> bool" where
  \<comment> \<open>region and category are the ones that some category key stands for\<close>
  "tagged l =
     list_ex (\<lambda>key.
        region l = (if contains ''wien'' key then ''wien'' else ''niederoesterreich'') \<and>
        category l = (if contains ''eigentumswohnung'' key
                      then ''eigentumswohnung'' else ''grundstueck''))
       (map fst categories)"

definition guarded :: "event \<Rightarrow> bool" where
  \<comment> \<open>the effects that follow a check of the running flag with no suspension in
     between, one for each checkpoint: the report that opens a cycle (line 64), the
     report that opens a category (line 92), the request of a search-result page
     (line 136), and the report that goes with each append to the buffer (line 112)\<close>
  "guarded e =
     (case e of
        GetPage u \<Rightarrow> True
      | Progress (CycleStart n) \<Rightarrow> True
      | Progress (ScanStart c) \<Rightarrow> True
      | Progress (Found t p) \<Rightarrow> True
      | _ \<Rightarrow> False)"


definition stop_respected :: "nat \<Rightarrow> run \<Rightarrow> bool" where
  \<comment> \<open>for a stop during suspension \<open>k\<close>: once that suspension is over the flag is down,
     and no guarded effect is later than \<open>k\<close>\<close>
  "stop_respected k s =
     ((k < tick s \<longrightarrow> \<not> is_running s) \<and>
      list_all (\<lambda>(t, e). guarded e \<longrightarrow> t \<le> k) (trace s))"

definition report :: "listing \<Rightarrow> string \<times> int" where
  \<comment> \<open>what the progress event of line 112 shows of a listing\<close>
  "report l = (take 50 (title l), price l)"

definition reported :: "(nat \<times> event) list \<Rightarrow> (string \<times> int) list" where
  \<comment> \<open>the reports of appended listings in a trace, in order\<close>
  "reported tr =
     concat (map (\<lambda>(t, e). case e of Progress (Found ti p) \<Rightarrow> [(ti, p)] | _ \<Rightarrow> []) tr)"

definition grown :: "(listing \<Rightarrow> bool) \<Rightarrow> run \<Rightarrow> run \<Rightarrow> bool" where
  \<comment> \<open>from \<open>s\<close> to \<open>s'\<close> the buffer has only been appended to, each new listing satisfies
     \<open>Q\<close>, and each was reported when it was appended\<close>
  "grown Q s s' =
     (let n = length (found_listings s); new = drop n (found_listings s')
      in take n (found_listings s') = found_listings s
         \<and> list_all Q new
         \<and> reported (trace s') = reported (trace s) @ map report new)"

section \<open>Sample inputs\<close>

definition anchor :: "string \<Rightarrow> tag" where
  "anchor h = \<lparr>get_text = [], attrs = [(''href'', h)]\<rparr>"

definition element :: "string \<Rightarrow> tag" where
  "element t = \<lparr>get_text = t, attrs = []\<rparr>"

definition two_anchor_page :: soup where
  \<comment> \<open>two anchors, the same listing path with and without a query string\<close>
  "two_anchor_page =
     \<lparr>select = (\<lambda>sel. if sel = hd link_selectors
                       then [anchor ''/iad/immobilien/d/AAA'', anchor ''/iad/immobilien/d/AAA?x=1'']
                       else []),
      soup_text = []\<rparr>"

definition relative_anchor_page :: soup where
  \<comment> \<open>one anchor whose \<open>href\<close> is relative to the current path\<close>
  "relative_anchor_page =
     \<lparr>select = (\<lambda>sel. if sel = hd link_selectors
                       then [anchor ''x/iad/immobilien/d/AAA''] else []),
      soup_text = []\<rparr>"

definition mixed_anchor_page :: soup where
  \<comment> \<open>an anchor found by two strategies, and one with an absolute \<open>href\<close>\<close>
  "mixed_anchor_page =
     \<lparr>select = (\<lambda>sel. if sel = hd link_selectors
                       then [anchor ''/iad/immobilien/d/AAA'',
                             anchor ''https://www.willhaben.at/iad/immobilien/d/BBB'']
                       else if sel = ''.result-item a''
                       then [anchor ''/iad/immobilien/d/AAA'', anchor ''/iad/other'']
                       else []),
      soup_text = []\<rparr>"

definition result_page :: soup where
  "result_page =
     \<lparr>select = (\<lambda>sel. if sel = hd link_selectors
                       then [anchor ''/iad/immobilien/d/AAA''] else []),
      soup_text = []\<rparr>"

definition detail_page :: soup where
  \<comment> \<open>the first price selector finds an element without digits, the second a price\<close>
  "detail_page =
     \<lparr>select = (\<lambda>sel. if sel = ''h1'' then [element '' Wohnung in Wien '']
                       else if sel = hd price_selectors then [element ''Preis auf Anfrage'']
                       else if sel = ''.AdDetailPrice'' then [element ''EUR 300.000,-'']
                       else if sel = ''.AdDetailProperties''
                       then [element (''Wohnfl'' @ [CHR 0xE4] @ ''che ca. 75 m'' @ [CHR 0xB2])]
                       else []),
      soup_text = ''Wohnung in Wien EUR 300.000,- Privatverkauf, ohne Makler''\<rparr>"

definition bare_page :: soup where
  \<comment> \<open>a detail page with a price and a keyword, and no area\<close>
  "bare_page =
     \<lparr>select = (\<lambda>sel. if sel = ''.price-value'' then [element ''99.000''] else []),
      soup_text = ''Baugrund VON PRIVAT''\<rparr>"

definition bare_url :: string where
  "bare_url = ''https://www.willhaben.at/iad/immobilien/d/BBB''"

definition page_one :: string where
  "page_one = snd (hd categories) @ ''&page=1''"

definition page_two :: string where
  "page_two = snd (hd categories) @ ''&page=2''"

definition detail_url :: string where
  "detail_url = ''https://www.willhaben.at/iad/immobilien/d/AAA''"

definition sample_world :: "nat \<Rightarrow> env" where
  \<comment> \<open>the first page of the first category lists one detail page, its second page is
     rate limited, every other request fails; \<open>stop_scraping\<close> is called during
     suspension \<open>k\<close>\<close>
  "sample_world k =
     \<lparr>http_get = (\<lambda>t u. if u = page_one then Http 200 (Some ''P'')
                         else if u = detail_url then Http 200 (Some ''D +43 664 1234567'')
                         else if u = bare_url then Http 200 (Some ''B'')
                         else if u = page_two then Http 429 None
                         else TransportError),
      bs4 = (\<lambda>html. if html = ''P'' then result_page
                    else if html = ''B'' then bare_page else detail_page),
      stop_called = (\<lambda>t. t = k),
      set_rank = (\<lambda>t u. 0),
      shuffle_rank = (\<lambda>t key. 0),
      randint = (\<lambda>t. 0),
      now = (\<lambda>t. ''2024-01-01T00:00:00'')\<rparr>"

definition fresh :: run where
  \<comment> \<open>the scraper as \<open>start_247_scraping\<close> hands it to the loop\<close>
  "fresh = \<lparr>is_running = True, current_cycle = 0, found_listings = [], tick = 0, trace = []\<rparr>"

definition sample_final :: run where
  \<comment> \<open>where the loop ends in \<open>sample_world 4\<close>: the stop comes during the sleep after
     the first listing\<close>
  "sample_final =
     \<lparr>is_running = False, current_cycle = 1, found_listings = [sample_listing], tick = 8,
      trace =
        [(0, Progress (CycleStart 1)),
         (0, Progress (ScanStart ''eigentumswohnung-wien'')),
         (0, GetPage page_one),
         (2, GetDetail detail_url),
         (4, Progress (PageCount 1 1 ''eigentumswohnung-wien'')),
         (4, Progress (Found ''Wohnung in Wien'' 300000)),
         (4, Sleep 5), (5, Sleep 15),
         (6, Progress (CategoryPause 3)), (6, Sleep 180),
         (7, Progress (CycleComplete 20)), (7, Sleep 1200)]\<rparr>"


section \<open>Properties of the text functions\<close>

lemma startswith_iff: "startswith s p \<longleftrightarrow> (\<exists>r. s = p @ r)"
  unfolding startswith_def
  by (metis append_eq_conv_conj append_take_drop_id)

lemma contains_iff: "contains p s \<longleftrightarrow> (\<exists>a b. s = a @ p @ b)"
proof (induction s)
  case Nil
  then show ?case by auto
next
  case (Cons c cs)
  show ?case
  proof
    assume "contains p (c # cs)"
    then consider "startswith (c # cs) p" | "contains p cs" by auto
    then show "\<exists>a b. c # cs = a @ p @ b"
    proof cases
      case 1
      then obtain r where "c # cs = p @ r" by (auto simp: startswith_iff)
      then have "c # cs = [] @ p @ r" by simp
      then show ?thesis by blast
    next
      case 2
      with Cons.IH obtain a b where "cs = a @ p @ b" by blast
      then have "c # cs = (c # a) @ p @ b" by simp
      then show ?thesis by blast
    qed
  next
    assume "\<exists>a b. c # cs = a @ p @ b"
    then obtain a b where ab: "c # cs = a @ p @ b" by blast
    show "contains p (c # cs)"
    proof (cases a)
      case Nil
      with ab have "startswith (c # cs) p" by (auto simp: startswith_iff)
      then show ?thesis by simp
    next
      case (Cons x a')
      with ab have "cs = a' @ p @ b" by simp
      with Cons.IH have "contains p cs" by blast
      then show ?thesis by simp
    qed
  qed
qed

section \<open>Recent listings\<close>

lemma get_recent_listings_positive:
  "0 < limit \<Longrightarrow>
   get_recent_listings s limit =
     drop (length (found_listings s) - nat limit) (found_listings s)"
  by (auto simp: get_recent_listings_def py_slice_from_def Let_def max_def nat_diff_distrib'
      intro!: arg_cong2 [where f = drop])

text \<open>
  C9. With \<open>limit = 0\<close> the slice \<open>found_listings[-0:]\<close> is the whole buffer: one
  buffered listing is returned although the limit is zero.
\<close>

theorem get_recent_listings_zero_returns_all:
  "get_recent_listings
     \<lparr>is_running = False, current_cycle = 0, found_listings = [sample_listing]\<rparr> 0
   = [sample_listing]"
  by (simp add: get_recent_listings_def py_slice_from_def)

section \<open>Price\<close>

lemma extract_price_loop_skip:
  "\<forall>x\<in>set pre. price_of_selector sp x = None \<Longrightarrow>
   extract_price_loop sp (pre @ rest) = extract_price_loop sp rest"
  by (induction pre) (auto simp: price_of_selector_def Let_def split: option.splits)

lemma extract_price_loop_hit:
  "price_of_selector sp sel = Some n \<Longrightarrow> extract_price_loop sp (sel # post) = n"
  by (auto simp: price_of_selector_def Let_def split: option.splits)

lemma extract_price_loop_none:
  "\<forall>x\<in>set sels. price_of_selector sp x = None \<Longrightarrow> extract_price_loop sp sels = 0"
  using extract_price_loop_skip [of sels sp "[]"] by simp

lemma py_int_fails_iff: "py_int (filter is_digit t) = None \<longleftrightarrow> \<not> list_ex is_digit t"
  by (auto simp: py_int_def filter_empty_conv list_ex_iff list_all_iff)

lemma price_text_scenario: "py_int (filter is_digit ''1.234.567'') = Some 1234567"
  by code_simp

text \<open>
  C8. The price selectors are tried in order. The first one whose element, stripped of
  its non-digits, parses as an integer gives the price; a selector that matches nothing
  or whose stripped text does not parse is passed over; when none is left the price is 0.
  The text \<open>1.234.567\<close> in the first price slot gives 1234567.
\<close>

theorem extract_price_priority:
  "(price_selectors = pre @ sel # post \<and> (\<forall>x\<in>set pre. price_of_selector sp x = None)
      \<and> price_of_selector sp sel = Some n \<longrightarrow> extract_price sp = n)
   \<and> ((\<forall>x\<in>set price_selectors. price_of_selector sp x = None) \<longrightarrow> extract_price sp = 0)
   \<and> (select_one sp (hd price_selectors) = Some el \<and> get_text el = ''1.234.567''
        \<longrightarrow> extract_price sp = 1234567)"
proof (intro conjI impI)
  assume a: "price_selectors = pre @ sel # post \<and> (\<forall>x\<in>set pre. price_of_selector sp x = None)
      \<and> price_of_selector sp sel = Some n"
  then have e: "price_selectors = pre @ sel # post"
    and p: "\<forall>x\<in>set pre. price_of_selector sp x = None"
    and h: "price_of_selector sp sel = Some n"
    by simp_all
  have "extract_price sp = extract_price_loop sp (pre @ sel # post)"
    unfolding extract_price_def e ..
  also have "\<dots> = extract_price_loop sp (sel # post)"
    using p by (rule extract_price_loop_skip)
  also have "\<dots> = n"
    using h by (rule extract_price_loop_hit)
  finally show "extract_price sp = n" .
next
  assume "\<forall>x\<in>set price_selectors. price_of_selector sp x = None"
  then show "extract_price sp = 0"
    by (simp add: extract_price_def extract_price_loop_none)
next
  assume a: "select_one sp (hd price_selectors) = Some el \<and> get_text el = ''1.234.567''"
  then have "price_of_selector sp (hd price_selectors) = Some 1234567"
    using price_text_scenario by (simp add: price_of_selector_def)
  moreover have "price_selectors = hd price_selectors # tl price_selectors"
    by (simp add: price_selectors_def)
  ultimately show "extract_price sp = 1234567"
    unfolding extract_price_def using extract_price_loop_hit by metis
qed

lemma detail_page_prices:
  "price_of_selector detail_page (hd price_selectors) = None"
  "price_of_selector detail_page ''.AdDetailPrice'' = Some 300000"
  by code_simp+

text \<open>
  On the sample detail page the first selector finds a text without digits and the
  second one the price.
\<close>

theorem extract_price_priority_witness:
  "extract_price detail_page = 300000
   \<and> price_of_selector detail_page (hd price_selectors) = None
   \<and> price_of_selector detail_page ''.AdDetailPrice'' = Some 300000"
proof -
  have a: "price_selectors = [hd price_selectors] @ ''.AdDetailPrice'' # [''.price-value'']"
    by (simp add: price_selectors_def)
  from extract_price_priority
    [where pre = "[hd price_selectors]" and sel = "''.AdDetailPrice''"
       and post = "[''.price-value'']" and sp = detail_page and n = 300000]
  show ?thesis using a detail_page_prices by simp
qed

section \<open>Phone\<close>

text \<open>
  C5. For the markup \<open>+43 664 1234567\<close> the first pattern matches the whole number, and
  \<open>findall\<close> hands back the text of its one group: the result is the prefix \<open>+43\<close>, not
  the number \<open>+436641234567\<close>.
\<close>

theorem extract_phone_number_returns_prefix:
  "extract_phone_number ''+43 664 1234567'' = Some ''+43''"
  by code_simp

lemma extract_phone_number_national:
  "extract_phone_number ''Tel: 0664 1234567'' = Some ''06641234567''"
  by code_simp

section \<open>Discovery\<close>

lemma set_add_links:
  "set (add_links links urls) =
     set urls \<union> canonical ` {h \<in> (\<lambda>t. tag_get t ''href'' []) ` set links. contains listing_fragment h}"
  by (induction links arbitrary: urls) (auto simp: set_add_def Let_def canonical_def)

lemma distinct_add_links: "distinct urls \<Longrightarrow> distinct (add_links links urls)"
  by (induction links arbitrary: urls) (auto simp: set_add_def Let_def)

lemma set_add_selectors:
  "set (add_selectors sp sels urls) =
     set urls \<union> canonical `
       {h \<in> set (concat (map (\<lambda>sel. map (\<lambda>t. tag_get t ''href'' []) (select sp sel)) sels)).
          contains listing_fragment h}"
proof (induction sels arbitrary: urls)
  case Nil
  then show ?case by simp
next
  case (Cons sel sels)
  have "{h \<in> set (concat (map (\<lambda>sel. map (\<lambda>t. tag_get t ''href'' []) (select sp sel)) (sel # sels))).
          contains listing_fragment h} =
        {h \<in> (\<lambda>t. tag_get t ''href'' []) ` set (select sp sel). contains listing_fragment h} \<union>
        {h \<in> set (concat (map (\<lambda>sel. map (\<lambda>t. tag_get t ''href'' []) (select sp sel)) sels)).
          contains listing_fragment h}"
    by auto
  then show ?case
    by (simp only: add_selectors.simps Cons.IH set_add_links image_Un Un_assoc)
qed

lemma distinct_add_selectors: "distinct urls \<Longrightarrow> distinct (add_selectors sp sels urls)"
  by (induction sels arbitrary: urls) (auto simp: distinct_add_links)

lemma set_listing_urls:
  "set (listing_urls sp) = canonical ` {h \<in> set (found_hrefs sp). contains listing_fragment h}"
  by (simp add: listing_urls_def found_hrefs_def set_add_selectors)

lemma distinct_listing_urls: "distinct (listing_urls sp)"
  by (simp add: listing_urls_def distinct_add_selectors)

lemma contains_append: "contains p s \<Longrightarrow> contains p (a @ s)"
  by (metis append.assoc contains_iff)

lemma scheme_of_origin: "takeWhile (\<lambda>c. c \<noteq> CHR '':'') (origin @ h) = ''https''"
  by (simp add: origin_def)

lemma absolute_origin: "absolute_url (origin @ h)"
  unfolding absolute_url_def Let_def scheme_of_origin
  by (simp add: origin_def)

lemma scenario_hrefs:
  "contains listing_fragment ''/iad/immobilien/d/AAA''"
  "contains listing_fragment ''/iad/immobilien/d/AAA?x=1''"
  "canonical ''/iad/immobilien/d/AAA'' = ''https://www.willhaben.at/iad/immobilien/d/AAA''"
  "canonical ''/iad/immobilien/d/AAA?x=1'' = ''https://www.willhaben.at/iad/immobilien/d/AAA?x=1''"
  by code_simp+

lemma filter_all: "\<forall>x\<in>A. P x \<Longrightarrow> {x \<in> A. P x} = A"
  by auto

lemma two_urls_card:
  "card {''https://www.willhaben.at/iad/immobilien/d/AAA'',
         ''https://www.willhaben.at/iad/immobilien/d/AAA?x=1''} = 2"
  by simp

text \<open>
  The page with the anchors \<open>/iad/immobilien/d/AAA\<close> and \<open>/iad/immobilien/d/AAA?x=1\<close>:
  two URLs are kept, not one.
\<close>

theorem two_anchors_counterexample:
  "length (listing_urls two_anchor_page) = 2"
  by code_simp

text \<open>
  C6, as amended. For a search-result page whose anchors have the two hrefs
  \<open>/iad/immobilien/d/AAA\<close> and \<open>/iad/immobilien/d/AAA?x=1\<close>, the discoverer keeps two
  URLs, one for each href: the key of the deduplication is the whole URL, query string
  included.
\<close>

theorem query_string_is_part_of_key:
  "set (found_hrefs sp) = {''/iad/immobilien/d/AAA'', ''/iad/immobilien/d/AAA?x=1''} \<Longrightarrow>
   set (listing_urls sp) =
     {''https://www.willhaben.at/iad/immobilien/d/AAA'',
      ''https://www.willhaben.at/iad/immobilien/d/AAA?x=1''}
   \<and> length (listing_urls sp) = 2"
proof -
  assume h: "set (found_hrefs sp) = {''/iad/immobilien/d/AAA'', ''/iad/immobilien/d/AAA?x=1''}"
  have "\<forall>x\<in>set (found_hrefs sp). contains listing_fragment x"
    unfolding h using scenario_hrefs(1,2) by (simp only: ball_simps simp_thms)
  then have "{h \<in> set (found_hrefs sp). contains listing_fragment h} = set (found_hrefs sp)"
    by (rule filter_all)
  then have s: "set (listing_urls sp) =
     {''https://www.willhaben.at/iad/immobilien/d/AAA'',
      ''https://www.willhaben.at/iad/immobilien/d/AAA?x=1''}"
    by (simp only: set_listing_urls h image_insert image_empty scenario_hrefs(3,4))
  have "length (listing_urls sp) = card (set (listing_urls sp))"
    using distinct_listing_urls by (simp only: distinct_card)
  also have "\<dots> = 2"
    unfolding s by (rule two_urls_card)
  finally show ?thesis using s by (simp only: simp_thms)
qed

lemma two_anchor_page_hrefs:
  "found_hrefs two_anchor_page = [''/iad/immobilien/d/AAA'', ''/iad/immobilien/d/AAA?x=1'']"
  by code_simp

theorem query_string_is_part_of_key_witness:
  "listing_urls two_anchor_page =
     [''https://www.willhaben.at/iad/immobilien/d/AAA'',
      ''https://www.willhaben.at/iad/immobilien/d/AAA?x=1'']
   \<and> length (listing_urls two_anchor_page) = 2"
proof -
  have "set (found_hrefs two_anchor_page) = {''/iad/immobilien/d/AAA'', ''/iad/immobilien/d/AAA?x=1''}"
    by (simp add: two_anchor_page_hrefs)
  from query_string_is_part_of_key [OF this]
  have "length (listing_urls two_anchor_page) = 2" by simp
  moreover have "listing_urls two_anchor_page =
     [''https://www.willhaben.at/iad/immobilien/d/AAA'',
      ''https://www.willhaben.at/iad/immobilien/d/AAA?x=1'']"
    by code_simp
  ultimately show ?thesis by simp
qed

text \<open>
  An anchor with the href \<open>x/iad/immobilien/d/AAA\<close> contains the listing path and does
  not start with a slash: it is kept as it is, and it is not an absolute URL.
\<close>

theorem relative_href_counterexample:
  "listing_urls relative_anchor_page = [''x/iad/immobilien/d/AAA'']
   \<and> \<not> absolute_url ''x/iad/immobilien/d/AAA''"
  by code_simp

text \<open>
  C7, as amended. The URLs of the discoverer are pairwise different and each contains
  the listing path. Each is made from an href that some selector strategy found: an
  href that starts with a slash is put behind the origin, which makes an absolute URL;
  any other href is kept unchanged.
\<close>

theorem listing_urls_shape:
  "distinct (listing_urls sp) \<and>
   (\<forall>u\<in>set (listing_urls sp).
      contains listing_fragment u \<and>
      (\<exists>h\<in>set (found_hrefs sp).
         (startswith h ''/'' \<and> u = origin @ h \<and> absolute_url u) \<or>
         (\<not> startswith h ''/'' \<and> u = h)))"
proof (intro conjI ballI)
  show "distinct (listing_urls sp)" by (rule distinct_listing_urls)
next
  fix u assume "u \<in> set (listing_urls sp)"
  then obtain h where h: "h \<in> set (found_hrefs sp)" "contains listing_fragment h" "u = canonical h"
    by (auto simp: set_listing_urls)
  then show "contains listing_fragment u"
    by (simp add: canonical_def contains_append)
  show "\<exists>h\<in>set (found_hrefs sp).
         (startswith h ''/'' \<and> u = origin @ h \<and> absolute_url u) \<or>
         (\<not> startswith h ''/'' \<and> u = h)"
    using h by (intro bexI [of _ h]) (auto simp: canonical_def absolute_origin)
qed

lemma mixed_anchor_page_urls:
  "listing_urls mixed_anchor_page =
     [''https://www.willhaben.at/iad/immobilien/d/AAA'',
      ''https://www.willhaben.at/iad/immobilien/d/BBB'']"
  by code_simp

theorem listing_urls_shape_witness:
  "listing_urls mixed_anchor_page =
     [''https://www.willhaben.at/iad/immobilien/d/AAA'',
      ''https://www.willhaben.at/iad/immobilien/d/BBB'']
   \<and> distinct (listing_urls mixed_anchor_page)
   \<and> contains listing_fragment ''https://www.willhaben.at/iad/immobilien/d/AAA''
   \<and> contains listing_fragment ''https://www.willhaben.at/iad/immobilien/d/BBB''"
  using listing_urls_shape [of mixed_anchor_page] by (simp add: mixed_anchor_page_urls)

section \<open>Effects on the state\<close>

lemma emit_fields [simp]:
  "tick (emit e s) = tick s"
  "is_running (emit e s) = is_running s"
  "found_listings (emit e s) = found_listings s"
  "current_cycle (emit e s) = current_cycle s"
  "trace (emit e s) = trace s @ [(tick s, e)]"
  by (simp_all add: emit_def)

lemma suspend_fields [simp]:
  "tick (suspend w s) = Suc (tick s)"
  "is_running (suspend w s) = (is_running s \<and> \<not> stop_called w (tick s))"
  "found_listings (suspend w s) = found_listings s"
  "current_cycle (suspend w s) = current_cycle s"
  "trace (suspend w s) = trace s"
  by (simp_all add: suspend_def stop_scraping_def Let_def)

lemma sleep_fields [simp]:
  "tick (sleep w d s) = Suc (tick s)"
  "is_running (sleep w d s) = (is_running s \<and> \<not> stop_called w (tick s))"
  "found_listings (sleep w d s) = found_listings s"
  "current_cycle (sleep w d s) = current_cycle s"
  "trace (sleep w d s) = trace s @ [(tick s, Sleep d)]"
  by (simp_all add: sleep_def)

section \<open>Price per area\<close>

lemma truediv_zero_division: "truediv p a = Inl ZeroDivisionError \<longleftrightarrow> a = 0"
proof (cases "a = 0")
  case True
  then show ?thesis by (simp only: truediv_def if_True simp_thms)
next
  case False
  then show ?thesis
    by (simp only: truediv_def Let_def if_False sum.simps py_error.simps simp_thms split: if_split)
qed

lemma compute_eur_per_m2_no_zero_division: "compute_eur_per_m2 p a \<noteq> Inl ZeroDivisionError"
  by (auto simp: compute_eur_per_m2_def truediv_zero_division split: sum.splits)

lemma digit_value_nonneg: "is_digit c \<Longrightarrow> 0 \<le> digit_value c"
  by (auto simp: is_digit_def digit_value_def)

lemma fold_digits_nonneg:
  "list_all is_digit s \<Longrightarrow> 0 \<le> n \<Longrightarrow> 0 \<le> fold (\<lambda>c n. 10 * n + digit_value c) s n"
  by (induction s arbitrary: n) (auto simp: digit_value_nonneg)

lemma py_int_nonneg: "py_int s = Some n \<Longrightarrow> 0 \<le> n"
  by (auto simp: py_int_def fold_digits_nonneg split: if_splits)

lemma extract_area_loop_nonneg: "extract_area_loop sp sels = Inr a \<Longrightarrow> 0 \<le> a"
  by (induction sels)
     (auto simp: py_int_nonneg split: option.splits list.splits prod.splits)

lemma extract_price_loop_nonneg: "0 \<le> extract_price_loop sp sels"
  by (induction sels) (auto simp: Let_def py_int_nonneg split: option.splits)

lemma make_listing_some:
  "make_listing html sp u c stamp = Inr (Some l) \<Longrightarrow>
   price l = extract_price sp \<and> 0 < price l \<and> extract_area sp = Inr (area l)
   \<and> is_private (lower (soup_text sp)) \<and> url l = u
   \<and> region l = (if contains ''wien'' c then ''wien'' else ''niederoesterreich'')
   \<and> category l = (if contains ''eigentumswohnung'' c
                    then ''eigentumswohnung'' else ''grundstueck'')
   \<and> compute_eur_per_m2 (price l) (area l) = Inr (eur_per_m2 l)"
  by (auto simp: make_listing_def Let_def split: sum.splits if_splits)

lemma extract_listing_details_some:
  "extract_listing_details w u c s = (Some l, s') \<Longrightarrow>
   \<exists>html stamp. http_get w (tick s) u = Http 200 (Some html)
      \<and> make_listing html (bs4 w html) u c stamp = Inr (Some l)"
  by (auto simp: extract_listing_details_def Let_def
      split: response.splits option.splits sum.splits if_splits)

lemma compute_eur_per_m2_cases:
  "(a \<le> 0 \<longrightarrow> compute_eur_per_m2 p a = Inr 0)
   \<and> (0 < a \<and> truediv p a = Inr q \<longrightarrow> compute_eur_per_m2 p a = Inr (py_round q))"
  by (simp add: compute_eur_per_m2_def)

lemma extract_listing_details_constructs:
  assumes "http_get w (tick s) u = Http 200 (Some html)"
    and "is_private (lower (soup_text (bs4 w html)))"
    and "0 < extract_price (bs4 w html)"
    and "extract_area (bs4 w html) = Inr a"
    and "compute_eur_per_m2 (extract_price (bs4 w html)) a = Inr e"
  shows "\<exists>l. fst (extract_listing_details w u c s) = Some l
           \<and> price l = extract_price (bs4 w html) \<and> area l = a \<and> eur_per_m2 l = e"
  using assms by (simp add: extract_listing_details_def make_listing_def Let_def)

lemma extract_listing_details_rejects:
  assumes "http_get w (tick s) u = Http 200 (Some html)"
    and "\<not> is_private (lower (soup_text (bs4 w html))) \<or> extract_price (bs4 w html) \<le> 0"
  shows "fst (extract_listing_details w u c s) = None"
  using assms
  by (auto simp: extract_listing_details_def make_listing_def Let_def split: sum.splits)

text \<open>
  C2. The price per area is computed by \<open>compute_eur_per_m2\<close>, for every price and area:
  it is never a division by zero; for an area that is not positive it is 0 and no
  quotient is taken; for a positive area it is the rounded quotient of price and area.
  A listing that \<open>extract_listing_details\<close> constructs has a non-negative area and
  carries this value: the rounded quotient when the area is positive, 0 when the area
  is 0. And a listing is constructed, with the price, the area and this value, whenever
  the page is fetched, passes the filter and the quotient does not overflow.
\<close>

theorem eur_per_m2_guarded:
  "(\<forall>p a. compute_eur_per_m2 p a \<noteq> Inl ZeroDivisionError)
   \<and> (\<forall>p a. a \<le> 0 \<longrightarrow> compute_eur_per_m2 p a = Inr 0)
   \<and> (\<forall>p a q. 0 < a \<and> truediv p a = Inr q \<longrightarrow> compute_eur_per_m2 p a = Inr (py_round q))
   \<and> (fst (extract_listing_details w u c s) = Some l \<longrightarrow>
        0 \<le> area l
        \<and> compute_eur_per_m2 (price l) (area l) = Inr (eur_per_m2 l)
        \<and> (if 0 < area l
            then \<exists>q. truediv (price l) (area l) = Inr q \<and> eur_per_m2 l = py_round q
            else area l = 0 \<and> eur_per_m2 l = 0))
   \<and> (http_get w (tick s) u = Http 200 (Some html)
        \<and> is_private (lower (soup_text (bs4 w html)))
        \<and> 0 < extract_price (bs4 w html)
        \<and> extract_area (bs4 w html) = Inr a
        \<and> compute_eur_per_m2 (extract_price (bs4 w html)) a = Inr e \<longrightarrow>
        (\<exists>l'. fst (extract_listing_details w u c s) = Some l'
            \<and> price l' = extract_price (bs4 w html) \<and> area l' = a \<and> eur_per_m2 l' = e))"
proof (intro conjI allI impI)
  fix p a
  show "compute_eur_per_m2 p a \<noteq> Inl ZeroDivisionError"
    by (rule compute_eur_per_m2_no_zero_division)
next
  fix p a :: int
  assume "a \<le> 0"
  then show "compute_eur_per_m2 p a = Inr 0"
    using compute_eur_per_m2_cases by blast
next
  fix p a q
  assume "0 < a \<and> truediv p a = Inr q"
  then show "compute_eur_per_m2 p a = Inr (py_round q)"
    using compute_eur_per_m2_cases by blast
next
  assume "fst (extract_listing_details w u c s) = Some l"
  then obtain s' where "extract_listing_details w u c s = (Some l, s')"
    by (cases "extract_listing_details w u c s") simp
  then obtain html stamp where "make_listing html (bs4 w html) u c stamp = Inr (Some l)"
    using extract_listing_details_some by blast
  then have a: "extract_area (bs4 w html) = Inr (area l)"
    and e: "compute_eur_per_m2 (price l) (area l) = Inr (eur_per_m2 l)"
    using make_listing_some by blast+
  from a show n: "0 \<le> area l"
    by (simp add: extract_area_def extract_area_loop_nonneg)
  from e show "compute_eur_per_m2 (price l) (area l) = Inr (eur_per_m2 l)" .
  from e n show "if 0 < area l
            then \<exists>q. truediv (price l) (area l) = Inr q \<and> eur_per_m2 l = py_round q
            else area l = 0 \<and> eur_per_m2 l = 0"
    by (auto simp: compute_eur_per_m2_def split: if_splits sum.splits)
next
  assume "http_get w (tick s) u = Http 200 (Some html)
        \<and> is_private (lower (soup_text (bs4 w html)))
        \<and> 0 < extract_price (bs4 w html)
        \<and> extract_area (bs4 w html) = Inr a
        \<and> compute_eur_per_m2 (extract_price (bs4 w html)) a = Inr e"
  then show "\<exists>l'. fst (extract_listing_details w u c s) = Some l'
            \<and> price l' = extract_price (bs4 w html) \<and> area l' = a \<and> eur_per_m2 l' = e"
    using extract_listing_details_constructs by blast
qed

lemma sample_details:
  "fst (extract_listing_details (sample_world 4) detail_url ''eigentumswohnung-wien'' fresh)
     = Some sample_listing"
  by code_simp

lemma bare_details:
  "map_option (\<lambda>l. (price l, area l, eur_per_m2 l))
     (fst (extract_listing_details (sample_world 4) bare_url ''grundstueck-wien'' fresh))
   = Some (99000, 0, 0)"
  by code_simp

lemma sample_listing_numbers:
  "price sample_listing = 300000" "area sample_listing = 75" "eur_per_m2 sample_listing = 4000"
  by (simp_all add: sample_listing_def)

text \<open>
  The scraper run on the sample detail page, with an area of 75 and a price of 300000,
  and on the bare page, which has no area.
\<close>

theorem eur_per_m2_guarded_witness:
  "fst (extract_listing_details (sample_world 4) detail_url ''eigentumswohnung-wien'' fresh)
     = Some sample_listing
   \<and> price sample_listing = 300000 \<and> area sample_listing = 75
   \<and> eur_per_m2 sample_listing = 4000
   \<and> compute_eur_per_m2 300000 75 = Inr 4000
   \<and> (\<exists>q. truediv 300000 75 = Inr q \<and> py_round q = 4000)
   \<and> map_option (\<lambda>l. (price l, area l, eur_per_m2 l))
       (fst (extract_listing_details (sample_world 4) bare_url ''grundstueck-wien'' fresh))
     = Some (99000, 0, 0)
   \<and> compute_eur_per_m2 99000 0 = Inr 0"
proof -
  note g = eur_per_m2_guarded
    [of "sample_world 4" detail_url "''eigentumswohnung-wien''" fresh sample_listing]
  from g sample_details
  have "compute_eur_per_m2 (price sample_listing) (area sample_listing)
          = Inr (eur_per_m2 sample_listing)"
    and "if 0 < area sample_listing
         then \<exists>q. truediv (price sample_listing) (area sample_listing) = Inr q
                \<and> eur_per_m2 sample_listing = py_round q
         else area sample_listing = 0 \<and> eur_per_m2 sample_listing = 0"
    by blast+
  then have "compute_eur_per_m2 300000 75 = Inr 4000"
    and "\<exists>q. truediv 300000 75 = Inr q \<and> py_round q = 4000"
    by (simp_all add: sample_listing_numbers)
  moreover from g have "compute_eur_per_m2 99000 0 = Inr 0" by blast
  ultimately show ?thesis
    using sample_details bare_details by (simp add: sample_listing_numbers)
qed

lemma nothing_private:
  "http_get (sample_world 4) (tick fresh) page_one = Http 200 (Some ''P'')"
  "\<not> is_private (lower (soup_text (bs4 (sample_world 4) ''P'')))"
  by code_simp+

section \<open>Rate limit\<close>

text \<open>
  C4. When the transport answers the request of a search-result page with status 429,
  \<open>get_page_listings\<close> gives no listing. Its effects are, in this order, the one request,
  one rate-limit progress event and a sleep of 60 seconds; after them the scan goes on,
  two suspensions later and with the buffer unchanged. The request is not repeated.
\<close>

theorem rate_limited_page:
  "http_get w (tick s) u = Http 429 body \<Longrightarrow>
   fst (get_page_listings w u c s) = []
   \<and> trace (snd (get_page_listings w u c s)) =
        trace s @ [(tick s, GetPage u), (Suc (tick s), Progress RateLimit),
                   (Suc (tick s), Sleep 60)]
   \<and> tick (snd (get_page_listings w u c s)) = tick s + 2
   \<and> found_listings (snd (get_page_listings w u c s)) = found_listings s"
  by (simp add: get_page_listings_def Let_def)

lemma page_two_answer: "http_get (sample_world 9) (tick fresh) page_two = Http 429 None"
  by code_simp

theorem rate_limited_page_witness:
  "fst (get_page_listings (sample_world 9) page_two ''eigentumswohnung-wien'' fresh) = []
   \<and> trace (snd (get_page_listings (sample_world 9) page_two ''eigentumswohnung-wien'' fresh)) =
        [(0, GetPage page_two), (1, Progress RateLimit), (1, Sleep 60)]
   \<and> tick (snd (get_page_listings (sample_world 9) page_two ''eigentumswohnung-wien'' fresh)) = 2"
  using rate_limited_page [OF page_two_answer, of "''eigentumswohnung-wien''"]
  by (simp add: fresh_def)

section \<open>Sample runs\<close>

lemma sample_run: "run_cycles 1 (sample_world 4) fresh = sample_final"
  by code_simp


section \<open>The loop and its rounds\<close>


lemma rounds_of_loop:
  assumes a: "continuous_scan_loop w s = Some s'"
  shows "\<exists>n. s' = run_cycles n w s"
proof (rule continuous_scan_loop.raw_induct
    [where P = "\<lambda>w s y. \<exists>n. y = run_cycles n w s", OF _ a])
  fix loop :: "env \<Rightarrow> run \<Rightarrow> run option" and w s y
  assume ih: "\<And>w s y. loop w s = Some y \<Longrightarrow> \<exists>n. y = run_cycles n w s"
    and eq: "(if is_running s then loop w (cycle w s) else Some s) = Some y"
  show "\<exists>n. y = run_cycles n w s"
  proof (cases "is_running s")
    case True
    with eq have "loop w (cycle w s) = Some y" by simp
    then have "\<exists>n. y = run_cycles n w (cycle w s)" by (rule ih)
    then obtain n where "y = run_cycles n w (cycle w s)" by blast
    with True have "y = run_cycles (Suc n) w s" by simp
    then show ?thesis by blast
  next
    case False
    with eq have "y = run_cycles 0 w s" by simp
    then show ?thesis by blast
  qed
qed

section \<open>The buffer\<close>

lemma grown_iff:
  "grown Q s s' \<longleftrightarrow>
     (\<exists>new. found_listings s' = found_listings s @ new \<and> list_all Q new
        \<and> reported (trace s') = reported (trace s) @ map report new)"
proof
  assume "grown Q s s'"
  then have "found_listings s' =
      found_listings s @ drop (length (found_listings s)) (found_listings s')"
    and "list_all Q (drop (length (found_listings s)) (found_listings s'))"
    and "reported (trace s') = reported (trace s)
           @ map report (drop (length (found_listings s)) (found_listings s'))"
    by (simp_all add: grown_def Let_def) (metis append_take_drop_id)
  then show "\<exists>new. found_listings s' = found_listings s @ new \<and> list_all Q new
        \<and> reported (trace s') = reported (trace s) @ map report new"
    by blast
next
  assume "\<exists>new. found_listings s' = found_listings s @ new \<and> list_all Q new
        \<and> reported (trace s') = reported (trace s) @ map report new"
  then show "grown Q s s'"
    by (auto simp: grown_def Let_def)
qed

lemma grown_same:
  "found_listings s' = found_listings s \<Longrightarrow> reported (trace s') = reported (trace s) \<Longrightarrow>
   grown Q s s'"
  by (simp add: grown_def)

lemma grown_trans: "grown Q s s1 \<Longrightarrow> grown Q s1 s2 \<Longrightarrow> grown Q s s2"
  unfolding grown_iff by (elim exE conjE, rule_tac x = "new @ newa" in exI) simp

lemma grown_weaken: "grown Q s s' \<Longrightarrow> (\<And>l. Q l \<Longrightarrow> R l) \<Longrightarrow> grown R s s'"
  unfolding grown_iff by (auto simp: list_all_iff)

lemma reported_simps [simp]:
  "reported [] = []"
  "reported (tr @ tr') = reported tr @ reported tr'"
  "reported ((t, e) # tr) =
     (case e of Progress (Found ti p) \<Rightarrow> [(ti, p)] | _ \<Rightarrow> []) @ reported tr"
  by (simp_all add: reported_def)

lemma extract_listing_details_quiet:
  "found_listings (snd (extract_listing_details w u c s)) = found_listings s
   \<and> reported (trace (snd (extract_listing_details w u c s))) = reported (trace s)"
  by (simp add: extract_listing_details_def Let_def
      split: response.splits option.splits sum.splits)

lemma extract_all_quiet:
  assumes "\<And>u s l s'. extract_listing_details w u c s = (Some l, s') \<Longrightarrow> Q l"
  shows "extract_all w c us s = (ls, s') \<Longrightarrow>
         list_all Q ls \<and> found_listings s' = found_listings s
         \<and> reported (trace s') = reported (trace s)"
proof (induction us arbitrary: s ls s')
  case Nil
  then show ?case by simp
next
  case (Cons u us)
  obtain r s1 where a: "extract_listing_details w u c s = (r, s1)"
    by (cases "extract_listing_details w u c s")
  obtain ls2 s2 where b: "extract_all w c us s1 = (ls2, s2)"
    by (cases "extract_all w c us s1")
  from Cons.IH [OF b] have ih: "list_all Q ls2" "found_listings s2 = found_listings s1"
    "reported (trace s2) = reported (trace s1)"
    by simp_all
  from extract_listing_details_quiet [of w u c s] a
  have f: "found_listings s1 = found_listings s" "reported (trace s1) = reported (trace s)"
    by simp_all
  from Cons.prems a b
  have e: "ls = (case r of None \<Rightarrow> ls2 | Some l \<Rightarrow> l # ls2)" "s' = s2" by simp_all
  have "list_all Q ls"
  proof (cases r)
    case None
    with e ih show ?thesis by simp
  next
    case (Some l)
    with a assms have "Q l" by blast
    with Some e ih show ?thesis by simp
  qed
  with e ih f show ?case by simp
qed

lemma get_page_listings_quiet:
  assumes "\<And>u s l s'. extract_listing_details w u c s = (Some l, s') \<Longrightarrow> Q l"
  shows "get_page_listings w u c s = (ls, s') \<Longrightarrow>
         list_all Q ls \<and> found_listings s' = found_listings s
         \<and> reported (trace s') = reported (trace s)"
  using extract_all_quiet [where Q = Q and w = w and c = c, OF assms]
  by (fastforce simp: get_page_listings_def parse_listings_page_def Let_def
      split: response.splits option.splits if_splits)

lemma scan_listings_grown:
  "list_all Q ls \<Longrightarrow> grown Q s (scan_listings w ls s)"
proof (induction ls arbitrary: s)
  case Nil
  then show ?case by (simp add: grown_same)
next
  case (Cons l ls)
  show ?case
  proof (cases "is_running s")
    case False
    then show ?thesis by (simp add: grown_same)
  next
    case True
    let ?s2 = "emit (Progress (Found (take 50 (title l)) (price l)))
                 (s\<lparr>found_listings := found_listings s @ [l]\<rparr>)"
    let ?s3 = "sleep w (rand_between w ?s2 5 12) ?s2"
    from Cons.prems have "Q l" by simp
    then have "grown Q s ?s3"
      unfolding grown_iff by (intro exI [of _ "[l]"]) (simp add: report_def)
    moreover from Cons.prems have "grown Q ?s3 (scan_listings w ls ?s3)"
      by (intro Cons.IH) simp
    ultimately have "grown Q s (scan_listings w ls ?s3)"
      by (rule grown_trans)
    then show ?thesis using True by (simp add: Let_def)
  qed
qed

lemma scan_pages_grown:
  assumes "\<And>u s l s'. extract_listing_details w u c s = (Some l, s') \<Longrightarrow> Q l"
  shows "grown Q s (scan_pages w c base pages s)"
proof (induction pages arbitrary: s)
  case Nil
  then show ?case by (simp add: grown_same)
next
  case (Cons page pages)
  show ?case
  proof (cases "is_running s")
    case False
    then show ?thesis by (simp add: grown_same)
  next
    case True
    obtain ls s1 where g: "get_page_listings w (base @ ''&page='' @ str_nat page) c s = (ls, s1)"
      by (cases "get_page_listings w (base @ ''&page='' @ str_nat page) c s")
    let ?s2 = "emit (Progress (PageCount page (length ls) c)) s1"
    let ?s3 = "scan_listings w ls ?s2"
    let ?s4 = "sleep w (rand_between w ?s3 15 30) ?s3"
    from get_page_listings_quiet [where Q = Q, OF assms g]
    have q: "list_all Q ls" and "found_listings s1 = found_listings s"
      and "reported (trace s1) = reported (trace s)"
      by simp_all
    then have a: "grown Q s ?s2" by (simp add: grown_same)
    from q have b: "grown Q ?s2 ?s3" by (rule scan_listings_grown)
    have c: "grown Q ?s3 ?s4" by (simp add: grown_same)
    have d: "grown Q ?s4 (scan_pages w c base pages ?s4)" by (rule Cons.IH)
    have "grown Q s (scan_pages w c base pages ?s4)"
      by (rule grown_trans [OF grown_trans [OF grown_trans [OF a b] c] d])
    then show ?thesis using True g by (simp add: Let_def)
  qed
qed

lemma scan_category_grown:
  assumes "\<And>u s l s'. extract_listing_details w u c s = (Some l, s') \<Longrightarrow> Q l"
  shows "grown Q s (scan_category w c base s)"
proof -
  have "grown Q s (emit (Progress (ScanStart c)) s)" by (simp add: grown_same)
  moreover have "grown Q (emit (Progress (ScanStart c)) s)
      (scan_pages w c base [1, 2, 3] (emit (Progress (ScanStart c)) s))"
    using assms by (rule scan_pages_grown)
  ultimately show ?thesis
    unfolding scan_category_def by (rule grown_trans)
qed

lemma scan_categories_grown:
  assumes "\<And>c b u s l s'. (c, b) \<in> set cs \<Longrightarrow>
             extract_listing_details w u c s = (Some l, s') \<Longrightarrow> Q l"
  shows "grown Q s (scan_categories w cs s)"
  using assms
proof (induction cs arbitrary: s)
  case Nil
  then show ?case by (simp add: grown_same)
next
  case (Cons cb cs)
  obtain c b where cb: "cb = (c, b)" by (cases cb)
  show ?case
  proof (cases "is_running s")
    case False
    then show ?thesis by (simp add: cb grown_same)
  next
    case True
    let ?s1 = "scan_category w c b s"
    let ?s3 = "sleep w (rand_between w ?s1 180 480)
                 (emit (Progress (CategoryPause (rand_between w ?s1 180 480 div 60))) ?s1)"
    have "\<And>u s l s'. extract_listing_details w u c s = (Some l, s') \<Longrightarrow> Q l"
      using Cons.prems cb by (meson list.set_intros(1))
    then have a: "grown Q s ?s1" by (rule scan_category_grown)
    have b: "grown Q ?s1 ?s3" by (simp add: grown_same)
    have "\<And>c b u s l s'. (c, b) \<in> set cs \<Longrightarrow>
             extract_listing_details w u c s = (Some l, s') \<Longrightarrow> Q l"
      using Cons.prems by (meson list.set_intros(2))
    then have c: "grown Q ?s3 (scan_categories w cs ?s3)"
      by (rule Cons.IH)
    have "grown Q s (scan_categories w cs ?s3)"
      by (rule grown_trans [OF grown_trans [OF a b] c])
    then show ?thesis using True by (simp add: cb Let_def)
  qed
qed

lemma cycle_grown:
  assumes "\<And>c b u s l s'. (c, b) \<in> set categories \<Longrightarrow>
             extract_listing_details w u c s = (Some l, s') \<Longrightarrow> Q l"
  shows "grown Q s (cycle w s)"
proof -
  let ?s2 = "emit (Progress (CycleStart (current_cycle s + 1)))
               (s\<lparr>current_cycle := current_cycle s + 1\<rparr>)"
  let ?cs = "sort_key (\<lambda>c. shuffle_rank w (tick ?s2) (fst c)) categories"
  let ?s3 = "scan_categories w ?cs ?s2"
  let ?d = "rand_between w ?s3 1200 2700"
  have a: "grown Q s ?s2" by (simp add: grown_same)
  have "\<And>c b u s l s'. (c, b) \<in> set ?cs \<Longrightarrow>
             extract_listing_details w u c s = (Some l, s') \<Longrightarrow> Q l"
    using assms by simp
  then have b: "grown Q ?s2 ?s3" by (rule scan_categories_grown)
  have c: "grown Q ?s3 (sleep w ?d (emit (Progress (CycleComplete (?d div 60))) ?s3))"
    by (simp add: grown_same)
  have "grown Q s (sleep w ?d (emit (Progress (CycleComplete (?d div 60))) ?s3))"
    by (rule grown_trans [OF grown_trans [OF a b] c])
  then show ?thesis by (simp add: cycle_def Let_def)
qed

lemma run_cycles_grown:
  assumes "\<And>c b u s l s'. (c, b) \<in> set categories \<Longrightarrow>
             extract_listing_details w u c s = (Some l, s') \<Longrightarrow> Q l"
  shows "grown Q s (run_cycles n w s)"
proof (induction n arbitrary: s)
  case 0
  then show ?case by (simp add: grown_same)
next
  case (Suc n)
  show ?case
  proof (cases "is_running s")
    case False
    then show ?thesis by (simp add: grown_same)
  next
    case True
    have "grown Q s (cycle w s)" using assms by (rule cycle_grown)
    moreover have "grown Q (cycle w s) (run_cycles n w (cycle w s))" by (rule Suc.IH)
    ultimately have "grown Q s (run_cycles n w (cycle w s))" by (rule grown_trans)
    then show ?thesis using True by simp
  qed
qed

lemma extract_listing_details_accepted:
  "extract_listing_details w u c s = (Some l, s') \<Longrightarrow> accepted w l"
proof -
  assume "extract_listing_details w u c s = (Some l, s')"
  then obtain html stamp where h: "http_get w (tick s) u = Http 200 (Some html)"
    and m: "make_listing html (bs4 w html) u c stamp = Inr (Some l)"
    using extract_listing_details_some by blast
  from make_listing_some [OF m] h show ?thesis
    unfolding accepted_def by blast
qed

text \<open>
  C1. A listing is constructed only with a positive price and with a private-seller
  keyword in the lower-cased visible text of its detail page, and none is constructed
  of a page where one of the two fails. The scan only appends to the buffer, and every
  listing that it appends, in any number of rounds of the loop and up to the end of the
  loop, is such a listing.
\<close>

theorem buffer_accepted:
  "(fst (extract_listing_details w u c s0) = Some l \<longrightarrow> accepted w l)
   \<and> (http_get w (tick s0) u = Http 200 (Some html)
        \<and> (\<not> is_private (lower (soup_text (bs4 w html))) \<or> extract_price (bs4 w html) \<le> 0)
        \<longrightarrow> fst (extract_listing_details w u c s0) = None)
   \<and> (\<exists>new. found_listings (run_cycles n w s) = found_listings s @ new
          \<and> (\<forall>l\<in>set new. accepted w l))
   \<and> (\<forall>s'. continuous_scan_loop w s = Some s' \<longrightarrow>
          (\<exists>new. found_listings s' = found_listings s @ new \<and> (\<forall>l\<in>set new. accepted w l)))"
proof (intro conjI impI allI)
  assume "fst (extract_listing_details w u c s0) = Some l"
  then show "accepted w l"
    using extract_listing_details_accepted [of w u c s0 l]
    by (cases "extract_listing_details w u c s0") simp
next
  assume "http_get w (tick s0) u = Http 200 (Some html)
        \<and> (\<not> is_private (lower (soup_text (bs4 w html))) \<or> extract_price (bs4 w html) \<le> 0)"
  then show "fst (extract_listing_details w u c s0) = None"
    using extract_listing_details_rejects by blast
next
  have r: "grown (accepted w) s (run_cycles m w s)" for m
    using extract_listing_details_accepted by (intro run_cycles_grown)
  from r [of n]
  show "\<exists>new. found_listings (run_cycles n w s) = found_listings s @ new
          \<and> (\<forall>l\<in>set new. accepted w l)"
    unfolding grown_iff list_all_iff by blast
  fix s' assume "continuous_scan_loop w s = Some s'"
  then obtain m where "s' = run_cycles m w s"
    using rounds_of_loop by blast
  with r [of m]
  show "\<exists>new. found_listings s' = found_listings s @ new \<and> (\<forall>l\<in>set new. accepted w l)"
    unfolding grown_iff list_all_iff by blast
qed

lemma sample_listing_fields:
  "price sample_listing = 300000" "url sample_listing = detail_url"
  "region sample_listing = ''wien''" "category sample_listing = ''eigentumswohnung''"
  by (simp_all add: sample_listing_def detail_url_def)

text \<open>
  In the sample world the scan appends the listing of the sample detail page. The
  result page, taken as a detail page, has no keyword, and no listing is made of it.
\<close>

theorem buffer_accepted_witness:
  "found_listings (run_cycles 1 (sample_world 4) fresh) = [sample_listing]
   \<and> accepted (sample_world 4) sample_listing
   \<and> 0 < price sample_listing
   \<and> fst (extract_listing_details (sample_world 4) page_one ''eigentumswohnung-wien'' fresh)
       = None"
proof -
  note b = buffer_accepted
    [of "sample_world 4" page_one "''eigentumswohnung-wien''" fresh sample_listing "''P''" 1 fresh]
  have f: "found_listings (run_cycles 1 (sample_world 4) fresh) = [sample_listing]"
    unfolding sample_run by (simp add: sample_final_def)
  from b obtain new
    where n: "found_listings (run_cycles 1 (sample_world 4) fresh) = found_listings fresh @ new"
      and q: "\<forall>l\<in>set new. accepted (sample_world 4) l"
    by blast
  from n have "new = [sample_listing]"
    unfolding f by (simp add: fresh_def)
  with q have a: "accepted (sample_world 4) sample_listing" by simp
  then have p: "0 < price sample_listing" by (simp add: accepted_def)
  from b nothing_private
  have "fst (extract_listing_details (sample_world 4) page_one ''eigentumswohnung-wien'' fresh)
          = None"
    by blast
  with f a p show ?thesis by simp
qed

section \<open>Region and category\<close>

lemma extract_listing_details_tags:
  "extract_listing_details w u c s = (Some l, s') \<Longrightarrow>
   region l = (if contains ''wien'' c then ''wien'' else ''niederoesterreich'')
   \<and> category l = (if contains ''eigentumswohnung'' c
                    then ''eigentumswohnung'' else ''grundstueck'')"
proof -
  assume "extract_listing_details w u c s = (Some l, s')"
  then obtain html stamp where "make_listing html (bs4 w html) u c stamp = Inr (Some l)"
    using extract_listing_details_some by blast
  from make_listing_some [OF this] show ?thesis by blast
qed

lemma extract_listing_details_tagged:
  "(c, b) \<in> set categories \<Longrightarrow> extract_listing_details w u c s = (Some l, s') \<Longrightarrow> tagged l"
  unfolding tagged_def list_ex_iff
  by (rule bexI [of _ c]) (use extract_listing_details_tags in force)+

lemma tagged_enumerations:
  "tagged l \<Longrightarrow> region l \<in> {''wien'', ''niederoesterreich''}
     \<and> category l \<in> {''eigentumswohnung'', ''grundstueck''}"
  unfolding tagged_def list_ex_iff by (elim bexE) (simp split: if_splits)

text \<open>
  C10. A listing constructed for a category key has the region \<open>wien\<close> exactly when the
  key contains \<open>wien\<close>, else \<open>niederoesterreich\<close>, and the category \<open>eigentumswohnung\<close>
  exactly when the key contains \<open>eigentumswohnung\<close>, else \<open>grundstueck\<close>; so has every
  listing that the scan of that key appends to the buffer. The loop scans the four fixed
  keys only: every listing that it appends has the region and category of one of them,
  and both lie in their two-element enumerations.
\<close>

theorem buffer_tagged:
  "(fst (extract_listing_details w u key s0) = Some l \<longrightarrow>
      region l = (if contains ''wien'' key then ''wien'' else ''niederoesterreich'')
      \<and> category l = (if contains ''eigentumswohnung'' key
                       then ''eigentumswohnung'' else ''grundstueck''))
   \<and> (\<exists>new. found_listings (scan_category w key base s) = found_listings s @ new
          \<and> (\<forall>l\<in>set new.
                region l = (if contains ''wien'' key then ''wien'' else ''niederoesterreich'')
                \<and> category l = (if contains ''eigentumswohnung'' key
                                 then ''eigentumswohnung'' else ''grundstueck'')))
   \<and> (\<exists>new. found_listings (run_cycles n w s) = found_listings s @ new
          \<and> (\<forall>l\<in>set new.
                tagged l \<and> region l \<in> {''wien'', ''niederoesterreich''}
                \<and> category l \<in> {''eigentumswohnung'', ''grundstueck''}))"
proof (intro conjI impI)
  assume "fst (extract_listing_details w u key s0) = Some l"
  then have "extract_listing_details w u key s0 = (Some l, snd (extract_listing_details w u key s0))"
    by (cases "extract_listing_details w u key s0") simp
  from extract_listing_details_tags [OF this]
  show "region l = (if contains ''wien'' key then ''wien'' else ''niederoesterreich'')"
    and "category l = (if contains ''eigentumswohnung'' key
                       then ''eigentumswohnung'' else ''grundstueck'')"
    by blast+
next
  have "grown (\<lambda>l. region l = (if contains ''wien'' key then ''wien'' else ''niederoesterreich'')
                \<and> category l = (if contains ''eigentumswohnung'' key
                                 then ''eigentumswohnung'' else ''grundstueck''))
          s (scan_category w key base s)"
    using extract_listing_details_tags by (intro scan_category_grown)
  then show "\<exists>new. found_listings (scan_category w key base s) = found_listings s @ new
          \<and> (\<forall>l\<in>set new.
                region l = (if contains ''wien'' key then ''wien'' else ''niederoesterreich'')
                \<and> category l = (if contains ''eigentumswohnung'' key
                                 then ''eigentumswohnung'' else ''grundstueck''))"
    unfolding grown_iff list_all_iff by blast
next
  have "grown tagged s (run_cycles n w s)"
    using extract_listing_details_tagged by (intro run_cycles_grown)
  then show "\<exists>new. found_listings (run_cycles n w s) = found_listings s @ new
          \<and> (\<forall>l\<in>set new.
                tagged l \<and> region l \<in> {''wien'', ''niederoesterreich''}
                \<and> category l \<in> {''eigentumswohnung'', ''grundstueck''})"
    unfolding grown_iff list_all_iff using tagged_enumerations by blast
qed

text \<open>
  The listing that the sample run appends was found under the key
  \<open>eigentumswohnung-wien\<close>.
\<close>

theorem buffer_tagged_witness:
  "found_listings (run_cycles 1 (sample_world 4) fresh) = [sample_listing]
   \<and> tagged sample_listing
   \<and> region sample_listing = ''wien''
   \<and> category sample_listing = ''eigentumswohnung''
   \<and> contains ''wien'' ''eigentumswohnung-wien''
   \<and> contains ''eigentumswohnung'' ''eigentumswohnung-wien''"
proof -
  note b = buffer_tagged
    [of "sample_world 4" detail_url "''eigentumswohnung-wien''" fresh sample_listing
        "snd (hd categories)" fresh 1]
  have f: "found_listings (run_cycles 1 (sample_world 4) fresh) = [sample_listing]"
    unfolding sample_run by (simp add: sample_final_def)
  from b obtain new
    where n: "found_listings (run_cycles 1 (sample_world 4) fresh) = found_listings fresh @ new"
      and q: "\<forall>l\<in>set new. tagged l"
    by blast
  from n have "new = [sample_listing]"
    unfolding f by (simp add: fresh_def)
  with q have t: "tagged sample_listing" by simp
  from b sample_details
  have "region sample_listing =
          (if contains ''wien'' ''eigentumswohnung-wien'' then ''wien'' else ''niederoesterreich'')"
    and "category sample_listing =
          (if contains ''eigentumswohnung'' ''eigentumswohnung-wien''
           then ''eigentumswohnung'' else ''grundstueck'')"
    by blast+
  then have "contains ''wien'' ''eigentumswohnung-wien''"
    and "contains ''eigentumswohnung'' ''eigentumswohnung-wien''"
    by (simp_all add: sample_listing_fields split: if_splits)
  with f t show ?thesis by (simp add: sample_listing_fields)
qed

section \<open>Stopping\<close>




lemma unguarded [simp]:
  "\<not> guarded (GetDetail u)" "\<not> guarded (Sleep d)"
  "\<not> guarded (Progress RequestError)" "\<not> guarded (Progress RateLimit)"
  "\<not> guarded (Progress (HttpError n v))" "\<not> guarded (Progress (PageCount p m c))"
  "\<not> guarded (Progress (CategoryPause d))" "\<not> guarded (Progress (CycleComplete d))"
  by (simp_all add: guarded_def)



lemma stop_respected_updates [simp]:
  "stop_respected k (s\<lparr>found_listings := x\<rparr>) = stop_respected k s"
  "stop_respected k (s\<lparr>current_cycle := y\<rparr>) = stop_respected k s"
  by (simp_all add: stop_respected_def)






















end
